theory Spec2Isabelle
  imports Main
begin

section \<open>Data model\<close>

text \<open>
  JavaScript objects live in a store and are known by reference. A reference to a
  RenderNode, to a RenderTree and to a DOM node is an address; two references are
  \<open>===\<close> exactly when the addresses are equal. \<open>null\<close> (and \<open>undefined\<close>) is \<open>None\<close>.
\<close>

type_synonym ref = nat
type_synonym tref = nat
type_synonym elem = nat

text \<open>
  What a call can throw: the failure of \<open>assert(message, condition)\<close>, and the
  TypeError of reading a property of \<open>null\<close>.
\<close>

datatype error = AssertionError | TypeError

text \<open>The post model is opaque to RenderNode except for the flag it reads.\<close>

record PostNode =
  isCardSection :: bool

text \<open>A card node, of which RenderNode reads \<open>cardNode.element\<close> only.\<close>

record CardNode =
  card_element :: "elem option"

text \<open>
  The fields the constructor of RenderNode assigns, in its order. \<open>priv_childNodes\<close> is
  \<open>_childNodes\<close> and \<open>priv_element\<close> is \<open>_element\<close>. The LinkedList behind \<open>_childNodes\<close>
  is kept as the sequence of its items. What \<open>super()\<close> sets belongs to LinkedItem,
  which is not among the sources; no method of RenderNode reads it.
\<close>

record RenderNode =
  parent :: "ref option"
  isDirty :: bool
  isRemoved :: bool
  postNode :: "PostNode option"
  priv_childNodes :: "ref list option"
  priv_element :: "elem option"
  renderTree :: "tref option"
  markupElement :: "elem option"
  headTextNode :: "elem option"
  tailTextNode :: "elem option"
  atomNode :: "elem option"
  cardNode :: "CardNode option"

text \<open>
  Modelled from the spec: the class RenderTree is not among the sources. The spec gives
  it the root DOM element that \<open>isAttached\<close> reads as \<open>renderTree.rootElement\<close>, and the
  element-to-RenderNode index, a mapping with unique keys.
\<close>

record RenderTree =
  rootElement :: elem
  elements :: "elem \<rightharpoonup> ref"

record heap =
  nodes :: "ref \<Rightarrow> RenderNode"
  trees :: "tref \<Rightarrow> RenderTree"

section \<open>RenderTree: the index\<close>

text \<open>
  Modelled from the spec: \<open>getElementRenderNode(element)\<close> of RenderTree, the lookup
  that answers a RenderNode or null.
\<close>

definition getElementRenderNode :: "RenderTree \<Rightarrow> elem \<Rightarrow> ref option" where
  "getElementRenderNode T e = elements T e"

text \<open>
  Modelled from the spec: \<open>setElementRenderNode(element, node)\<close> of RenderTree, one of
  the two mutators of the index.
\<close>

definition setElementRenderNode :: "elem \<Rightarrow> ref \<Rightarrow> RenderTree \<Rightarrow> RenderTree" where
  "setElementRenderNode e n T = T\<lparr>elements := (elements T)(e \<mapsto> n)\<rparr>"

text \<open>
  Modelled from the spec: \<open>removeElementRenderNode(element)\<close> of RenderTree, the other
  mutator of the index.
\<close>

definition removeElementRenderNode :: "elem \<Rightarrow> RenderTree \<Rightarrow> RenderTree" where
  "removeElementRenderNode e T = T\<lparr>elements := (elements T)(e := None)\<rparr>"

section \<open>RenderNode\<close>

text \<open>\<open>constructor(postNode, renderTree)\<close>\<close>

definition new_RenderNode :: "PostNode option \<Rightarrow> tref option \<Rightarrow> RenderNode" where
  "new_RenderNode p t =
     \<lparr> parent = None,
       isDirty = True,
       isRemoved = False,
       postNode = p,
       priv_childNodes = None,
       priv_element = None,
       renderTree = t,
       markupElement = None,
       headTextNode = None,
       tailTextNode = None,
       atomNode = None,
       cardNode = None \<rparr>"

text \<open>\<open>get element()\<close> and \<open>get isRendered()\<close>\<close>

definition element :: "RenderNode \<Rightarrow> elem option" where
  "element N = priv_element N"

definition isRendered :: "RenderNode \<Rightarrow> bool" where
  "isRendered N = (element N \<noteq> None)"

text \<open>Writing one node, and one tree, of the store.\<close>

definition upd_node :: "ref \<Rightarrow> (RenderNode \<Rightarrow> RenderNode) \<Rightarrow> heap \<Rightarrow> heap" where
  "upd_node n f s = s\<lparr>nodes := (nodes s)(n := f (nodes s n))\<rparr>"

definition upd_tree :: "tref \<Rightarrow> (RenderTree \<Rightarrow> RenderTree) \<Rightarrow> heap \<Rightarrow> heap" where
  "upd_tree t f s = s\<lparr>trees := (trees s)(t := f (trees s t))\<rparr>"

text \<open>
  \<open>isAttached()\<close>. \<open>containsNode\<close> of dom-utils is not among the sources and is a
  parameter: \<open>containsNode parentNode childNode\<close>.
\<close>

definition isAttached :: "(elem \<Rightarrow> elem \<Rightarrow> bool) \<Rightarrow> heap \<Rightarrow> ref \<Rightarrow> error + bool" where
  "isAttached containsNode s n =
     (case element (nodes s n) of
        None \<Rightarrow> Inl AssertionError
      | Some e \<Rightarrow>
          (case renderTree (nodes s n) of
             None \<Rightarrow> Inl TypeError
           | Some t \<Rightarrow> Inr (containsNode (rootElement (trees s t)) e)))"

text \<open>
  \<open>markDirty()\<close> calls itself on the parent. On a parent chain that is a cycle the
  calls never end, which is the value \<open>None\<close>.
\<close>

partial_function (option) markDirty :: "ref \<Rightarrow> heap \<Rightarrow> heap option" where
  "markDirty n s =
     (let s1 = upd_node n (\<lambda>N. N\<lparr>isDirty := True\<rparr>) s
      in case parent (nodes s1 n) of
           None \<Rightarrow> Some s1
         | Some p \<Rightarrow> markDirty p s1)"

text \<open>\<open>scheduleForRemoval()\<close>\<close>

definition scheduleForRemoval :: "ref \<Rightarrow> heap \<Rightarrow> heap option" where
  "scheduleForRemoval n s =
     (let s1 = upd_node n (\<lambda>N. N\<lparr>isRemoved := True\<rparr>) s
      in case parent (nodes s1 n) of
           None \<Rightarrow> Some s1
         | Some p \<Rightarrow> markDirty p s1)"

text \<open>\<open>markClean()\<close>\<close>

definition markClean :: "ref \<Rightarrow> heap \<Rightarrow> heap" where
  "markClean n s = upd_node n (\<lambda>N. N\<lparr>isDirty := False\<rparr>) s"

text \<open>
  \<open>set element(element)\<close>. The field is written before the tree is touched, so a
  TypeError on \<open>this.renderTree\<close> leaves the new value in \<open>_element\<close>: the result is the
  outcome together with the store as the call left it.
\<close>

definition set_element :: "ref \<Rightarrow> elem option \<Rightarrow> heap \<Rightarrow> (error + unit) \<times> heap" where
  "set_element n new s =
     (let currentElement = priv_element (nodes s n);
          s1 = upd_node n (\<lambda>N. N\<lparr>priv_element := new\<rparr>) s;
          r1 = (case currentElement of
                  None \<Rightarrow> (Inr (), s1)
                | Some c \<Rightarrow>
                    (case renderTree (nodes s1 n) of
                       None \<Rightarrow> (Inl TypeError, s1)
                     | Some t \<Rightarrow> (Inr (), upd_tree t (removeElementRenderNode c) s1)))
      in case r1 of
           (Inl err, s2) \<Rightarrow> (Inl err, s2)
         | (Inr u, s2) \<Rightarrow>
             (case new of
                None \<Rightarrow> (Inr (), s2)
              | Some e \<Rightarrow>
                  (case renderTree (nodes s2 n) of
                     None \<Rightarrow> (Inl TypeError, s2)
                   | Some t \<Rightarrow> (Inr (), upd_tree t (setElementRenderNode e n) s2))))"

text \<open>\<open>destroy()\<close>: the three assignments after the setter run only if it returned.\<close>

definition destroy :: "ref \<Rightarrow> heap \<Rightarrow> (error + unit) \<times> heap" where
  "destroy n s =
     (case set_element n None s of
        (Inl err, s1) \<Rightarrow> (Inl err, s1)
      | (Inr u, s1) \<Rightarrow>
          (Inr (),
           upd_node n (\<lambda>N. N\<lparr>renderTree := None\<rparr>)
             (upd_node n (\<lambda>N. N\<lparr>postNode := None\<rparr>)
                (upd_node n (\<lambda>N. N\<lparr>parent := None\<rparr>) s1))))"

text \<open>
  \<open>get childNodes()\<close>: the list is made on the first read. The two hooks the getter
  hands to the list are \<open>adoptItem\<close>, which sets the item's parent to this node, and
  \<open>freeItem\<close>, which destroys the item.
\<close>

definition childNodes :: "ref \<Rightarrow> heap \<Rightarrow> ref list \<times> heap" where
  "childNodes n s =
     (case priv_childNodes (nodes s n) of
        None \<Rightarrow> ([], upd_node n (\<lambda>N. N\<lparr>priv_childNodes := Some []\<rparr>) s)
      | Some l \<Rightarrow> (l, s))"

definition adoptItem :: "ref \<Rightarrow> ref \<Rightarrow> heap \<Rightarrow> heap" where
  "adoptItem this item s = upd_node item (\<lambda>N. N\<lparr>parent := Some this\<rparr>) s"

definition freeItem :: "ref \<Rightarrow> heap \<Rightarrow> (error + unit) \<times> heap" where
  "freeItem item s = destroy item s"

text \<open>
  \<open>reparsesMutationOfChildNode(node)\<close>. \<open>contains\<close> is the DOM's own
  \<open>Node.contains\<close>, a parameter: \<open>contains e node\<close> is \<open>e.contains(node)\<close>.
\<close>

definition reparsesMutationOfChildNode ::
    "(elem \<Rightarrow> elem \<Rightarrow> bool) \<Rightarrow> RenderNode \<Rightarrow> elem \<Rightarrow> error + bool" where
  "reparsesMutationOfChildNode contains N node =
     (case postNode N of
        None \<Rightarrow> Inl TypeError
      | Some p \<Rightarrow>
          if isCardSection p then
            (case cardNode N of
               None \<Rightarrow> Inl TypeError
             | Some c \<Rightarrow>
                 (case card_element c of
                    None \<Rightarrow> Inl TypeError
                  | Some e \<Rightarrow> Inr (\<not> contains e node)))
          else Inr True)"

section \<open>Parent chains and sequences of calls\<close>

text \<open>
  \<open>path_to_root s n xs\<close>: \<open>xs\<close> is the node \<open>n\<close> followed by its ancestors, each the
  \<open>parent\<close> of the one before, the last with no parent. A node has such a list exactly
  when its parent chain is acyclic and reaches a root.
\<close>

fun path_to_root :: "heap \<Rightarrow> ref \<Rightarrow> ref list \<Rightarrow> bool" where
  "path_to_root s n [] = False"
| "path_to_root s n [x] = (x = n \<and> parent (nodes s n) = None)"
| "path_to_root s n (x # y # ys) =
     (x = n \<and> parent (nodes s n) = Some y \<and> path_to_root s y (y # ys))"

text \<open>A sequence of \<open>markDirty()\<close> calls, on the nodes of the list in order.\<close>

fun markDirty_all :: "ref list \<Rightarrow> heap \<Rightarrow> heap option" where
  "markDirty_all [] s = Some s"
| "markDirty_all (n # ns) s =
     (case markDirty n s of None \<Rightarrow> None | Some s1 \<Rightarrow> markDirty_all ns s1)"

text \<open>The store with the \<open>isDirty\<close> flag of every node of \<open>A\<close> set, nothing else changed.\<close>

definition dirtied :: "ref set \<Rightarrow> heap \<Rightarrow> heap" where
  "dirtied A s =
     s\<lparr>nodes := (\<lambda>m. if m \<in> A then (nodes s m)\<lparr>isDirty := True\<rparr> else nodes s m)\<rparr>"

text \<open>
  The tree root (0) \<rightarrow> child (1) \<rightarrow> grandchild (2), every node clean; each further
  address holds a clean node with no parent.
\<close>

definition three_nodes :: heap where
  "three_nodes =
     \<lparr> nodes = (\<lambda>i. (new_RenderNode None (Some 0))
                 \<lparr> parent := (if i = 1 then Some 0 else if i = 2 then Some 1 else None),
                   isDirty := False \<rparr>),
       trees = (\<lambda>t. \<lparr> rootElement = 0, elements = Map.empty \<rparr>) \<rparr>"

section \<open>Sequences of element assignments\<close>

text \<open>
  \<open>holds_element s t n E\<close>: the node \<open>n\<close> belongs to the tree \<open>t\<close> and its \<open>element\<close>
  is \<open>E\<close>.
\<close>

definition holds_element :: "heap \<Rightarrow> tref \<Rightarrow> ref \<Rightarrow> elem \<Rightarrow> bool" where
  "holds_element s t n E = (renderTree (nodes s n) = Some t \<and> element (nodes s n) = Some E)"

text \<open>
  The index of the tree \<open>t\<close> agrees with the nodes: it maps \<open>E\<close> to \<open>n\<close> exactly when
  \<open>n\<close> is a node of \<open>t\<close> whose element is \<open>E\<close>.
\<close>

definition index_consistent :: "heap \<Rightarrow> tref \<Rightarrow> bool" where
  "index_consistent s t =
     (\<forall>E n. getElementRenderNode (trees s t) E = Some n \<longleftrightarrow> holds_element s t n E)"

text \<open>
  A sequence of assignments \<open>node.element = e\<close>, in order; the first one that throws
  ends the run.
\<close>

fun assign_all :: "(ref \<times> elem option) list \<Rightarrow> heap \<Rightarrow> (error + unit) \<times> heap" where
  "assign_all [] s = (Inr (), s)"
| "assign_all ((n, e) # as) s =
     (case set_element n e s of
        (Inl err, s1) \<Rightarrow> (Inl err, s1)
      | (Inr u, s1) \<Rightarrow> assign_all as s1)"

text \<open>
  \<open>unshared t as s\<close>: every assignment of the sequence is to a node of the tree \<open>t\<close>,
  and none gives a node an element that, at that moment, another node of \<open>t\<close> has.
\<close>

fun unshared :: "tref \<Rightarrow> (ref \<times> elem option) list \<Rightarrow> heap \<Rightarrow> bool" where
  "unshared t [] s = True"
| "unshared t ((n, e) # as) s =
     (renderTree (nodes s n) = Some t
      \<and> (\<forall>E m. e = Some E \<and> m \<noteq> n \<longrightarrow> \<not> holds_element s t m E)
      \<and> unshared t as (snd (set_element n e s)))"

text \<open>
  Assignments \<open>n.element = e\<close> to one node, in order, by a caller that catches what
  each of them throws and goes on.
\<close>

fun assign_each :: "ref \<Rightarrow> elem option list \<Rightarrow> heap \<Rightarrow> heap" where
  "assign_each n [] s = s"
| "assign_each n (e # es) s = assign_each n es (snd (set_element n e s))"

section \<open>Stores for the examples\<close>

text \<open>Every node as the constructor leaves it, for a post node that is no card.\<close>

definition fresh_heap :: heap where
  "fresh_heap =
     \<lparr> nodes = (\<lambda>i. new_RenderNode (Some \<lparr>isCardSection = False\<rparr>) (Some 0)),
       trees = (\<lambda>t. \<lparr> rootElement = 3, elements = Map.empty \<rparr>) \<rparr>"

text \<open>
  A rendered node (0, element 7) with one rendered child (1, element 8), both
  registered in the index of their tree.
\<close>

definition parent_and_child :: heap where
  "parent_and_child =
     \<lparr> nodes = (\<lambda>i. (new_RenderNode (Some \<lparr>isCardSection = False\<rparr>) (Some 0))
                 \<lparr> parent := (if i = 1 then Some 0 else None),
                   priv_childNodes := (if i = 0 then Some [1] else None),
                   priv_element := (if i = 0 then Some 7 else if i = 1 then Some 8 else None) \<rparr>),
       trees = (\<lambda>t. \<lparr> rootElement = 7,
                      elements = (if t = 0 then [7 \<mapsto> 0, 8 \<mapsto> 1] else Map.empty) \<rparr>) \<rparr>"

text \<open>A card section's node after its card was rendered into element 7.\<close>

definition card_node_7 :: RenderNode where
  "card_node_7 =
     (new_RenderNode (Some \<lparr>isCardSection = True\<rparr>) (Some 0))
       \<lparr>cardNode := Some \<lparr>card_element = Some 7\<rparr>\<rparr>"

text \<open>
  A fresh node destroyed and then assigned the element 8: the assignment throws, and
  the store is as it left it.
\<close>

definition destroyed_then_assigned :: heap where
  "destroyed_then_assigned = snd (set_element 0 (Some 8) (snd (destroy 0 fresh_heap)))"

section \<open>The constructor\<close>

text \<open>
  C9. A freshly constructed RenderNode is dirty and not removed, has no element (so
  it is not rendered), no parent, and every specialised slot (markupElement,
  headTextNode, tailTextNode, atomNode, cardNode) is null.
\<close>

theorem new_RenderNode_fresh:
  "isDirty (new_RenderNode p t) = True
   \<and> isRemoved (new_RenderNode p t) = False
   \<and> element (new_RenderNode p t) = None
   \<and> isRendered (new_RenderNode p t) = False
   \<and> parent (new_RenderNode p t) = None
   \<and> markupElement (new_RenderNode p t) = None
   \<and> headTextNode (new_RenderNode p t) = None
   \<and> tailTextNode (new_RenderNode p t) = None
   \<and> atomNode (new_RenderNode p t) = None
   \<and> cardNode (new_RenderNode p t) = None"
  by (simp add: new_RenderNode_def element_def isRendered_def)

section \<open>Dirty marking\<close>

lemma nodes_dirtied:
  "nodes (dirtied A s) m = (if m \<in> A then (nodes s m)\<lparr>isDirty := True\<rparr> else nodes s m)"
  by (simp add: dirtied_def)

lemma trees_dirtied: "trees (dirtied A s) = trees s"
  by (simp add: dirtied_def)

lemma dirtied_dirtied: "dirtied A (dirtied B s) = dirtied (A \<union> B) s"
  by (auto simp: dirtied_def fun_eq_iff)

lemma upd_dirty_dirtied: "upd_node n (\<lambda>N. N\<lparr>isDirty := True\<rparr>) s = dirtied {n} s"
  by (auto simp: dirtied_def upd_node_def fun_eq_iff)

lemma path_same_parents:
  "(\<And>m. parent (nodes s' m) = parent (nodes s m)) \<Longrightarrow>
   path_to_root s' n xs = path_to_root s n xs"
  by (induction s n xs rule: path_to_root.induct) auto

lemma path_dirtied: "path_to_root (dirtied A s) n xs = path_to_root s n xs"
  by (rule path_same_parents) (simp add: nodes_dirtied)

lemma markDirty_path:
  "path_to_root s n xs \<Longrightarrow> markDirty n s = Some (dirtied (set xs) s)"
proof (induction xs arbitrary: n s)
  case Nil
  then show ?case by simp
next
  case (Cons x xs)
  show ?case
  proof (cases xs)
    case Nil
    with Cons.prems show ?thesis
      by (subst markDirty.simps) (simp add: upd_dirty_dirtied nodes_dirtied)
  next
    case (Cons y ys)
    with Cons.prems have x: "x = n" and par: "parent (nodes s n) = Some y"
      and rest: "path_to_root s y xs" by simp_all
    have "path_to_root (dirtied {n} s) y xs"
      using rest by (simp only: path_dirtied)
    then have "markDirty y (dirtied {n} s) = Some (dirtied (set xs) (dirtied {n} s))"
      by (rule Cons.IH)
    then have "markDirty y (dirtied {n} s) = Some (dirtied (set (x # xs)) s)"
      by (simp add: dirtied_dirtied x Un_commute)
    then show ?thesis
      by (subst markDirty.simps) (simp add: upd_dirty_dirtied nodes_dirtied par)
  qed
qed

lemma markDirty_all_paths:
  "list_all (\<lambda>(m, p). path_to_root s m p) marks \<Longrightarrow>
   markDirty_all (map fst marks) s = Some (dirtied (\<Union>(m, p)\<in>set marks. set p) s)"
proof (induction marks arbitrary: s)
  case Nil
  show ?case by (simp add: dirtied_def)
next
  case (Cons a marks)
  obtain m p where a: "a = (m, p)" by (cases a)
  from Cons.prems a have 1: "path_to_root s m p"
    and 2: "list_all (\<lambda>(m, p). path_to_root s m p) marks" by simp_all
  have "list_all (\<lambda>(m, p'). path_to_root (dirtied (set p) s) m p') marks"
    using 2 by (simp add: path_dirtied)
  from Cons.IH [OF this] show ?case
    by (simp add: a markDirty_path [OF 1] dirtied_dirtied Un_commute)
qed


text \<open>
  C2. When \<open>xs\<close> is the node \<open>n\<close> followed by its ancestors up to the root,
  \<open>markDirty()\<close> on \<open>n\<close> returns and leaves \<open>isDirty\<close> true on \<open>n\<close> and on every
  ancestor. Starting from a store in which every node is clean, after any sequence of
  \<open>markDirty()\<close> calls (each on a node with a path to the root) the set of dirty nodes is
  exactly the union of the marked nodes' paths to the root.
\<close>

theorem markDirty_propagates:
  "(path_to_root s n xs \<longrightarrow>
      (\<exists>s'. markDirty n s = Some s' \<and> (\<forall>a\<in>set xs. isDirty (nodes s' a) = True)))
   \<and> ((\<forall>a. \<not> isDirty (nodes s a)) \<and> list_all (\<lambda>(m, p). path_to_root s m p) marks \<longrightarrow>
      (\<exists>s'. markDirty_all (map fst marks) s = Some s'
          \<and> {a. isDirty (nodes s' a)} = (\<Union>(m, p)\<in>set marks. set p)))"
proof (intro conjI impI)
  assume "path_to_root s n xs"
  then have "markDirty n s = Some (dirtied (set xs) s)"
    by (rule markDirty_path)
  then show "\<exists>s'. markDirty n s = Some s' \<and> (\<forall>a\<in>set xs. isDirty (nodes s' a) = True)"
    by (simp add: nodes_dirtied)
next
  assume a: "(\<forall>a. \<not> isDirty (nodes s a)) \<and> list_all (\<lambda>(m, p). path_to_root s m p) marks"
  then have "markDirty_all (map fst marks) s = Some (dirtied (\<Union>(m, p)\<in>set marks. set p) s)"
    by (simp add: markDirty_all_paths)
  moreover have "{a. isDirty (nodes (dirtied (\<Union>(m, p)\<in>set marks. set p) s) a)}
      = (\<Union>(m, p)\<in>set marks. set p)"
    using a by (auto simp: nodes_dirtied)
  ultimately show "\<exists>s'. markDirty_all (map fst marks) s = Some s'
          \<and> {a. isDirty (nodes s' a)} = (\<Union>(m, p)\<in>set marks. set p)"
    by simp
qed

lemma three_nodes_paths:
  "path_to_root three_nodes 2 [2, 1, 0]" "path_to_root three_nodes 1 [1, 0]"
  by (simp_all add: three_nodes_def)

theorem markDirty_propagates_witness:
  "(\<exists>s'. markDirty 2 three_nodes = Some s'
      \<and> isDirty (nodes s' 2) \<and> isDirty (nodes s' 1) \<and> isDirty (nodes s' 0))
   \<and> (\<exists>s'. markDirty_all [2, 1] three_nodes = Some s' \<and> {a. isDirty (nodes s' a)} = {0, 1, 2})"
proof -
  have clean: "\<forall>a. \<not> isDirty (nodes three_nodes a)"
    by (simp add: three_nodes_def)
  have "\<exists>s'. markDirty 2 three_nodes = Some s'
      \<and> isDirty (nodes s' 2) \<and> isDirty (nodes s' 1) \<and> isDirty (nodes s' 0)"
    using markDirty_propagates [of three_nodes 2 "[2, 1, 0]" "[]"] three_nodes_paths
    by auto
  moreover have "\<exists>s'. markDirty_all [2, 1] three_nodes = Some s'
      \<and> {a. isDirty (nodes s' a)} = {0, 1, 2}"
    using markDirty_propagates [of three_nodes 2 "[2, 1, 0]" "[(2, [2, 1, 0]), (1, [1, 0])]"]
      three_nodes_paths clean
    by auto
  ultimately show ?thesis by simp
qed

text \<open>
  C3. On a node whose parent chain is acyclic and reaches a root, a second
  \<open>markDirty()\<close> returns the store the first one left: the same set of dirty nodes
  and the same \<open>isDirty\<close> flag on every node.
\<close>

theorem markDirty_idempotent:
  "path_to_root s n xs \<Longrightarrow>
   \<exists>s1 s2. markDirty n s = Some s1 \<and> markDirty n s1 = Some s2
     \<and> {a. isDirty (nodes s2 a)} = {a. isDirty (nodes s1 a)}
     \<and> (\<forall>a. isDirty (nodes s2 a) = isDirty (nodes s1 a))
     \<and> s2 = s1"
proof -
  assume p: "path_to_root s n xs"
  then have 1: "markDirty n s = Some (dirtied (set xs) s)"
    by (rule markDirty_path)
  from p have "path_to_root (dirtied (set xs) s) n xs"
    by (simp only: path_dirtied)
  then have 2: "markDirty n (dirtied (set xs) s) = Some (dirtied (set xs) s)"
    by (simp add: markDirty_path dirtied_dirtied)
  from 1 2 show ?thesis by simp
qed

theorem markDirty_idempotent_witness:
  "\<exists>s1. markDirty 2 three_nodes = Some s1 \<and> markDirty 2 s1 = Some s1
     \<and> {a. isDirty (nodes s1 a)} = {0, 1, 2}"
proof -
  have "markDirty 2 three_nodes = Some (dirtied {2, 1, 0} three_nodes)"
    using markDirty_path [OF three_nodes_paths(1)] by simp
  moreover have "{a. isDirty (nodes (dirtied {2, 1, 0} three_nodes) a)} = {0, 1, 2}"
    by (auto simp: nodes_dirtied three_nodes_def)
  ultimately show ?thesis
    using markDirty_idempotent [OF three_nodes_paths(1)] by auto
qed

section \<open>Cleaning and removal\<close>

text \<open>
  C4. \<open>markClean()\<close> on a node sets that node's \<open>isDirty\<close> to false and changes
  nothing else: every other node is as it was (no parent and no child is cleaned), the
  node's other fields are as they were, and so is every tree. In the tree
  root \<rightarrow> child \<rightarrow> grandchild with all three dirty, cleaning the grandchild leaves root
  and child dirty.
\<close>

theorem markClean_only_this_flag:
  "isDirty (nodes (markClean n s) n) = False
   \<and> (\<forall>m. m \<noteq> n \<longrightarrow> nodes (markClean n s) m = nodes s m)
   \<and> nodes (markClean n s) n = (nodes s n)\<lparr>isDirty := False\<rparr>
   \<and> trees (markClean n s) = trees s"
  by (simp add: markClean_def upd_node_def)

theorem markClean_only_this_flag_witness:
  "\<exists>s1. markDirty 2 three_nodes = Some s1
     \<and> isDirty (nodes s1 0) \<and> isDirty (nodes s1 1) \<and> isDirty (nodes s1 2)
     \<and> \<not> isDirty (nodes (markClean 2 s1) 2)
     \<and> isDirty (nodes (markClean 2 s1) 1)
     \<and> isDirty (nodes (markClean 2 s1) 0)"
proof -
  let ?s1 = "dirtied {2, 1, 0} three_nodes"
  have 1: "markDirty 2 three_nodes = Some ?s1"
    using markDirty_path [OF three_nodes_paths(1)] by simp
  have 2: "isDirty (nodes ?s1 0) \<and> isDirty (nodes ?s1 1) \<and> isDirty (nodes ?s1 2)"
    by (simp add: nodes_dirtied)
  have 3: "\<not> isDirty (nodes (markClean 2 ?s1) 2)
     \<and> nodes (markClean 2 ?s1) 1 = nodes ?s1 1
     \<and> nodes (markClean 2 ?s1) 0 = nodes ?s1 0"
    using markClean_only_this_flag [of 2 ?s1] by simp
  from 1 2 3 show ?thesis by simp
qed

lemma dirtied_empty: "dirtied {} s = s"
  by (simp add: dirtied_def)

lemma path_upd_isRemoved:
  "path_to_root (upd_node n (\<lambda>N. N\<lparr>isRemoved := True\<rparr>) s) m xs = path_to_root s m xs"
  by (rule path_same_parents) (simp add: upd_node_def)

lemma path_tl:
  "path_to_root s n xs \<Longrightarrow> parent (nodes s n) = Some p \<Longrightarrow> path_to_root s p (tl xs)"
  by (cases "(s, n, xs)" rule: path_to_root.cases) auto

lemma path_parent_tl:
  "path_to_root s n xs \<Longrightarrow> parent (nodes s n) = Some p \<Longrightarrow> p \<in> set (tl xs)"
  by (cases "(s, n, xs)" rule: path_to_root.cases) auto

lemma path_root_tl:
  "path_to_root s n xs \<Longrightarrow> parent (nodes s n) = None \<Longrightarrow> tl xs = []"
  by (cases "(s, n, xs)" rule: path_to_root.cases) auto

lemma scheduleForRemoval_path:
  assumes "path_to_root s n xs"
  shows "scheduleForRemoval n s
         = Some (dirtied (set (tl xs)) (upd_node n (\<lambda>N. N\<lparr>isRemoved := True\<rparr>) s))"
proof (cases "parent (nodes s n)")
  case None
  with assms have "tl xs = []" by (simp add: path_root_tl)
  with None show ?thesis
    by (simp add: scheduleForRemoval_def dirtied_empty) (simp add: upd_node_def)
next
  case (Some p)
  let ?s1 = "upd_node n (\<lambda>N. N\<lparr>isRemoved := True\<rparr>) s"
  from assms Some have "path_to_root s p (tl xs)" by (rule path_tl)
  then have "path_to_root ?s1 p (tl xs)" by (simp only: path_upd_isRemoved)
  then have "markDirty p ?s1 = Some (dirtied (set (tl xs)) ?s1)" by (rule markDirty_path)
  moreover have "parent (nodes ?s1 n) = Some p" using Some by (simp add: upd_node_def)
  ultimately show ?thesis by (simp add: scheduleForRemoval_def)
qed

text \<open>
  C5. On a node whose parent chain reaches a root (\<open>xs\<close> is the node followed by its
  ancestors), \<open>scheduleForRemoval()\<close> returns with \<open>isRemoved\<close> true on the node, with
  the parent (when there is one) and every further ancestor dirty, and with the
  node's \<open>postNode\<close>, \<open>element\<close>, \<open>renderTree\<close> and \<open>parent\<close> and every tree's index as
  they were: nothing is destroyed by the call.
\<close>

theorem scheduleForRemoval_defers:
  assumes "path_to_root s n xs"
  shows "\<exists>s'. scheduleForRemoval n s = Some s'
     \<and> isRemoved (nodes s' n) = True
     \<and> (\<forall>p. parent (nodes s n) = Some p \<longrightarrow> isDirty (nodes s' p) = True)
     \<and> (\<forall>a\<in>set (tl xs). isDirty (nodes s' a) = True)
     \<and> postNode (nodes s' n) = postNode (nodes s n)
     \<and> element (nodes s' n) = element (nodes s n)
     \<and> renderTree (nodes s' n) = renderTree (nodes s n)
     \<and> parent (nodes s' n) = parent (nodes s n)
     \<and> trees s' = trees s"
proof -
  let ?s' = "dirtied (set (tl xs)) (upd_node n (\<lambda>N. N\<lparr>isRemoved := True\<rparr>) s)"
  have 1: "scheduleForRemoval n s = Some ?s'"
    using assms by (rule scheduleForRemoval_path)
  have 2: "\<forall>p. parent (nodes s n) = Some p \<longrightarrow> isDirty (nodes ?s' p) = True"
    using assms by (auto simp: nodes_dirtied dest: path_parent_tl)
  have 3: "isRemoved (nodes ?s' n) = True \<and> (\<forall>a\<in>set (tl xs). isDirty (nodes ?s' a) = True)
     \<and> postNode (nodes ?s' n) = postNode (nodes s n)
     \<and> element (nodes ?s' n) = element (nodes s n)
     \<and> renderTree (nodes ?s' n) = renderTree (nodes s n)
     \<and> parent (nodes ?s' n) = parent (nodes s n)
     \<and> trees ?s' = trees s"
    by (simp add: nodes_dirtied trees_dirtied upd_node_def element_def)
  from 1 2 3 show ?thesis by blast
qed

theorem scheduleForRemoval_defers_witness:
  "\<exists>s'. scheduleForRemoval 2 three_nodes = Some s'
     \<and> isRemoved (nodes s' 2) \<and> isDirty (nodes s' 1) \<and> isDirty (nodes s' 0)
     \<and> postNode (nodes s' 2) = postNode (nodes three_nodes 2)
     \<and> element (nodes s' 2) = element (nodes three_nodes 2)
     \<and> trees s' = trees three_nodes"
  using scheduleForRemoval_defers [OF three_nodes_paths(1)] by auto

section \<open>The element setter and the index\<close>

lemma set_element_live:
  assumes "renderTree (nodes s n) = Some t"
  shows "set_element n new s =
     (Inr (),
      (let s1 = upd_node n (\<lambda>N. N\<lparr>priv_element := new\<rparr>) s;
           s2 = (case priv_element (nodes s n) of
                   None \<Rightarrow> s1 | Some c \<Rightarrow> upd_tree t (removeElementRenderNode c) s1)
       in case new of None \<Rightarrow> s2 | Some e \<Rightarrow> upd_tree t (setElementRenderNode e n) s2))"
  using assms
  by (simp add: set_element_def Let_def upd_node_def upd_tree_def split: option.splits)

lemma set_element_null_unrendered:
  assumes "priv_element (nodes s n) = None"
  shows "set_element n None s = (Inr (), upd_node n (\<lambda>N. N\<lparr>priv_element := None\<rparr>) s)"
  using assms by (simp add: set_element_def Let_def)

lemma set_element_dead:
  assumes "renderTree (nodes s n) = None"
  shows "set_element n (Some e) s
         = (Inl TypeError, upd_node n (\<lambda>N. N\<lparr>priv_element := Some e\<rparr>) s)"
  using assms
  by (simp add: set_element_def Let_def upd_node_def split: option.splits)

lemma fresh_heap_assigned:
  "set_element 0 (Some 7) fresh_heap =
     (Inr (), upd_tree 0 (setElementRenderNode 7 0)
                (upd_node 0 (\<lambda>N. N\<lparr>priv_element := Some 7\<rparr>) fresh_heap))"
  by (simp add: set_element_live [of _ _ 0] fresh_heap_def new_RenderNode_def upd_node_def)

lemma set_element_effect:
  assumes "renderTree (nodes s n) = Some t"
  shows "\<exists>s'. set_element n new s = (Inr (), s')
     \<and> (\<forall>m. nodes s' m = (if m = n then (nodes s n)\<lparr>priv_element := new\<rparr> else nodes s m))
     \<and> (\<forall>u. u \<noteq> t \<longrightarrow> trees s' u = trees s u)
     \<and> (\<forall>E. getElementRenderNode (trees s' t) E =
            (if new = Some E then Some n
             else if element (nodes s n) = Some E then None
             else getElementRenderNode (trees s t) E))"
  by (simp add: set_element_live [OF assms] Let_def)
     (auto simp: upd_node_def upd_tree_def element_def getElementRenderNode_def
        setElementRenderNode_def removeElementRenderNode_def split: option.splits)

lemma set_element_keeps_index:
  assumes live: "renderTree (nodes s n) = Some t"
    and inv: "index_consistent s t"
    and fresh: "\<forall>E m. new = Some E \<and> m \<noteq> n \<longrightarrow> \<not> holds_element s t m E"
  shows "\<exists>s'. set_element n new s = (Inr (), s') \<and> index_consistent s' t"
proof -
  from set_element_effect [OF live, of new] obtain s' where
    r: "set_element n new s = (Inr (), s')"
    and nd: "\<And>m. nodes s' m = (if m = n then (nodes s n)\<lparr>priv_element := new\<rparr> else nodes s m)"
    and ix: "\<And>E. getElementRenderNode (trees s' t) E =
            (if new = Some E then Some n
             else if element (nodes s n) = Some E then None
             else getElementRenderNode (trees s t) E)"
    by blast
  have h: "\<And>m E. holds_element s' t m E =
      (if m = n then new = Some E else holds_element s t m E)"
    using live by (simp add: holds_element_def nd element_def)
  have "getElementRenderNode (trees s' t) E = Some m \<longleftrightarrow> holds_element s' t m E" for E m
  proof (cases "new = Some E")
    case True
    with fresh show ?thesis by (auto simp: ix h)
  next
    case False
    note new = this
    show ?thesis
    proof (cases "element (nodes s n) = Some E")
      case True
      then have "holds_element s t n E" using live by (simp add: holds_element_def)
      then have at_n: "getElementRenderNode (trees s t) E = Some n"
        using inv by (simp add: index_consistent_def)
      have "holds_element s t m E \<longleftrightarrow> getElementRenderNode (trees s t) E = Some m"
        using inv by (simp add: index_consistent_def)
      then have "holds_element s t m E \<longleftrightarrow> m = n"
        by (auto simp: at_n)
      with new True show ?thesis by (auto simp: ix h)
    next
      case False
      then have "\<not> holds_element s t n E" by (simp add: holds_element_def)
      with new False inv show ?thesis by (auto simp: ix h index_consistent_def)
    qed
  qed
  then have "index_consistent s' t" by (simp add: index_consistent_def)
  with r show ?thesis by blast
qed

lemma assign_all_keeps_index:
  "index_consistent s t \<Longrightarrow> unshared t as s \<Longrightarrow>
   \<exists>s'. assign_all as s = (Inr (), s') \<and> index_consistent s' t"
proof (induction as arbitrary: s)
  case Nil
  then show ?case by simp
next
  case (Cons a as)
  obtain n e where a: "a = (n, e)" by (cases a)
  from Cons.prems a have live: "renderTree (nodes s n) = Some t"
    and fresh: "\<forall>E m. e = Some E \<and> m \<noteq> n \<longrightarrow> \<not> holds_element s t m E"
    and rest: "unshared t as (snd (set_element n e s))" by simp_all
  from set_element_keeps_index [OF live Cons.prems(1) fresh] obtain s1 where
    1: "set_element n e s = (Inr (), s1)" and 2: "index_consistent s1 t" by blast
  from rest 1 have "unshared t as s1" by simp
  from Cons.IH [OF 2 this] show ?case by (simp add: a 1)
qed

text \<open>
  C1, as amended. One assignment \<open>n.element = new\<close> on a node of the tree \<open>t\<close>
  returns, leaves \<open>new\<close> in the node, and changes the index of \<open>t\<close> by removing the
  node's previous element (when it had one) and then mapping the new element (when
  it is not null) to the node. Starting from a store whose index agrees with the
  nodes, after any sequence of assignments to nodes of \<open>t\<close> in which no node is given
  an element that another node of \<open>t\<close> has at that moment: no two nodes of \<open>t\<close> have the
  same element, and the lookup of \<open>E\<close> answers the node that has \<open>E\<close>, or null when
  no node has it.
\<close>

theorem element_index_consistent:
  "(renderTree (nodes s n) = Some t \<longrightarrow>
      (\<exists>s'. set_element n new s = (Inr (), s')
         \<and> element (nodes s' n) = new
         \<and> (\<forall>E. getElementRenderNode (trees s' t) E =
                (if new = Some E then Some n
                 else if element (nodes s n) = Some E then None
                 else getElementRenderNode (trees s t) E))))
   \<and> (index_consistent s t \<and> unshared t as s \<longrightarrow>
      (\<exists>s'. assign_all as s = (Inr (), s')
         \<and> (\<forall>E a b. holds_element s' t a E \<and> holds_element s' t b E \<longrightarrow> a = b)
         \<and> (\<forall>E a. getElementRenderNode (trees s' t) E = Some a \<longleftrightarrow> holds_element s' t a E)
         \<and> (\<forall>E. (\<forall>a. \<not> holds_element s' t a E) \<longrightarrow>
                getElementRenderNode (trees s' t) E = None)))"
proof (intro conjI impI)
  assume live: "renderTree (nodes s n) = Some t"
  from set_element_effect [OF live, of new]
  show "\<exists>s'. set_element n new s = (Inr (), s')
         \<and> element (nodes s' n) = new
         \<and> (\<forall>E. getElementRenderNode (trees s' t) E =
                (if new = Some E then Some n
                 else if element (nodes s n) = Some E then None
                 else getElementRenderNode (trees s t) E))"
    by (auto simp: element_def)
next
  assume "index_consistent s t \<and> unshared t as s"
  then obtain s' where 1: "assign_all as s = (Inr (), s')" and 2: "index_consistent s' t"
    using assign_all_keeps_index by blast
  from 2 have iff: "\<And>E a. getElementRenderNode (trees s' t) E = Some a \<longleftrightarrow> holds_element s' t a E"
    by (simp add: index_consistent_def)
  have uniq: "\<forall>E a b. holds_element s' t a E \<and> holds_element s' t b E \<longrightarrow> a = b"
  proof (intro allI impI)
    fix E a b assume "holds_element s' t a E \<and> holds_element s' t b E"
    then have "getElementRenderNode (trees s' t) E = Some a"
      and "getElementRenderNode (trees s' t) E = Some b" by (simp_all add: iff)
    then show "a = b" by simp
  qed
  have none: "\<forall>E. (\<forall>a. \<not> holds_element s' t a E) \<longrightarrow> getElementRenderNode (trees s' t) E = None"
  proof (intro allI impI)
    fix E assume no: "\<forall>a. \<not> holds_element s' t a E"
    show "getElementRenderNode (trees s' t) E = None"
    proof (cases "getElementRenderNode (trees s' t) E")
      case None then show ?thesis .
    next
      case (Some a)
      then have "holds_element s' t a E" by (simp add: iff)
      with no show ?thesis by simp
    qed
  qed
  from 1 uniq iff none
  show "\<exists>s'. assign_all as s = (Inr (), s')
         \<and> (\<forall>E a b. holds_element s' t a E \<and> holds_element s' t b E \<longrightarrow> a = b)
         \<and> (\<forall>E a. getElementRenderNode (trees s' t) E = Some a \<longleftrightarrow> holds_element s' t a E)
         \<and> (\<forall>E. (\<forall>a. \<not> holds_element s' t a E) \<longrightarrow>
                getElementRenderNode (trees s' t) E = None)"
    by blast
qed

lemma fresh_heap_consistent: "index_consistent fresh_heap 0"
  by (simp add: index_consistent_def holds_element_def fresh_heap_def new_RenderNode_def
        element_def getElementRenderNode_def)

lemmas heap_eval =
  set_element_def Let_def upd_node_def upd_tree_def fresh_heap_def new_RenderNode_def
  element_def getElementRenderNode_def setElementRenderNode_def removeElementRenderNode_def
  holds_element_def

lemma fresh_heap_unshared:
  "unshared 0 [(0, Some 5), (0, Some 6), (1, Some 5)] fresh_heap"
  by (simp add: heap_eval)

theorem element_index_consistent_witness:
  "\<exists>s'. assign_all [(0, Some 5), (0, Some 6), (1, Some 5)] fresh_heap = (Inr (), s')
     \<and> element (nodes s' 0) = Some 6 \<and> element (nodes s' 1) = Some 5
     \<and> getElementRenderNode (trees s' 0) 6 = Some 0
     \<and> getElementRenderNode (trees s' 0) 5 = Some 1
     \<and> getElementRenderNode (trees s' 0) 7 = None"
proof -
  from element_index_consistent [of fresh_heap 0 0 None "[(0, Some 5), (0, Some 6), (1, Some 5)]"]
    fresh_heap_consistent fresh_heap_unshared
  obtain s' where 1: "assign_all [(0, Some 5), (0, Some 6), (1, Some 5)] fresh_heap = (Inr (), s')"
    and 2: "\<And>E a. getElementRenderNode (trees s' 0) E = Some a \<longleftrightarrow> holds_element s' 0 a E"
    and 3: "\<And>E. (\<forall>a. \<not> holds_element s' 0 a E) \<Longrightarrow> getElementRenderNode (trees s' 0) E = None"
    by blast
  from 1 have n: "nodes s' =
      (\<lambda>i. (new_RenderNode (Some \<lparr>isCardSection = False\<rparr>) (Some 0))
              \<lparr>priv_element := (if i = 0 then Some 6 else if i = 1 then Some 5 else None)\<rparr>)"
    by (auto simp: heap_eval fun_eq_iff)
  have "holds_element s' 0 0 6" "holds_element s' 0 1 5" "\<forall>a. \<not> holds_element s' 0 a 7"
    by (simp_all add: n holds_element_def element_def new_RenderNode_def)
  then have "getElementRenderNode (trees s' 0) 6 = Some 0"
    "getElementRenderNode (trees s' 0) 5 = Some 1"
    "getElementRenderNode (trees s' 0) 7 = None"
    using 2 3 by simp_all
  moreover have "element (nodes s' 0) = Some 6 \<and> element (nodes s' 1) = Some 5"
    by (simp add: n element_def)
  ultimately show ?thesis using 1 by simp
qed

text \<open>
  C1 as stated fails: the setter never looks at the other nodes. After
  \<open>a.element = E; b.element = E\<close> on two fresh nodes of one tree, both nodes have
  the element \<open>E\<close>; after a further \<open>b.element = null\<close> the node \<open>a\<close> still has \<open>E\<close> and
  the lookup of \<open>E\<close> answers null.
\<close>

theorem element_shared_counterexample:
  "fst (assign_all [(0, Some 5), (1, Some 5)] fresh_heap) = Inr ()
   \<and> renderTree (nodes (snd (assign_all [(0, Some 5), (1, Some 5)] fresh_heap)) 0) = Some 0
   \<and> renderTree (nodes (snd (assign_all [(0, Some 5), (1, Some 5)] fresh_heap)) 1) = Some 0
   \<and> element (nodes (snd (assign_all [(0, Some 5), (1, Some 5)] fresh_heap)) 0) = Some 5
   \<and> element (nodes (snd (assign_all [(0, Some 5), (1, Some 5)] fresh_heap)) 1) = Some 5
   \<and> fst (assign_all [(0, Some 5), (1, Some 5), (1, None)] fresh_heap) = Inr ()
   \<and> element (nodes (snd (assign_all [(0, Some 5), (1, Some 5), (1, None)] fresh_heap)) 0) = Some 5
   \<and> getElementRenderNode
        (trees (snd (assign_all [(0, Some 5), (1, Some 5), (1, None)] fresh_heap)) 0) 5 = None"
  by (simp add: heap_eval)

section \<open>Destruction\<close>

lemma destroy_returns_iff:
  "fst (destroy n s) = Inr () \<longleftrightarrow>
     (element (nodes s n) = None \<or> renderTree (nodes s n) \<noteq> None)"
  by (simp add: destroy_def set_element_def Let_def upd_node_def element_def
        split: option.splits)

lemma destroy_result:
  assumes "destroy n s = (Inr (), s')"
  shows "nodes s' = (nodes s)(n := (nodes s n)\<lparr>priv_element := None, parent := None,
                                   postNode := None, renderTree := None\<rparr>)"
    and "\<And>E. element (nodes s n) = Some E \<Longrightarrow>
           \<exists>t. renderTree (nodes s n) = Some t
             \<and> trees s' = (trees s)(t := removeElementRenderNode E (trees s t))"
    and "element (nodes s n) = None \<Longrightarrow> trees s' = trees s"
  using assms
  by (auto simp: destroy_def set_element_def Let_def upd_node_def upd_tree_def element_def
        fun_eq_iff split: option.splits)



lemma set_element_no_tree:
  assumes "renderTree (nodes s n) = None"
  shows "trees (snd (set_element n new s)) = trees s"
    and "renderTree (nodes (snd (set_element n new s)) n) = None"
  using assms
  by (auto simp: set_element_def Let_def upd_node_def split: option.splits)

lemma assign_each_no_tree:
  "renderTree (nodes s n) = None \<Longrightarrow>
   trees (assign_each n es s) = trees s \<and> renderTree (nodes (assign_each n es s) n) = None"
proof (induction es arbitrary: s)
  case Nil
  then show ?case by simp
next
  case (Cons e es)
  from Cons.prems have "renderTree (nodes (snd (set_element n e s)) n) = None"
    and "trees (snd (set_element n e s)) = trees s"
    by (simp_all add: set_element_no_tree)
  with Cons.IH [of "snd (set_element n e s)"] show ?case by simp
qed

lemma destroy_live_returns:
  assumes "element (nodes s n) = None \<or> renderTree (nodes s n) \<noteq> None"
  shows "\<exists>s1. destroy n s = (Inr (), s1) \<and> renderTree (nodes s1 n) = None
           \<and> element (nodes s1 n) = None"
proof -
  from assms have "fst (destroy n s) = Inr ()" by (simp add: destroy_returns_iff)
  then obtain s1 where d: "destroy n s = (Inr (), s1)" by (cases "destroy n s") simp
  from destroy_result(1) [OF d] have "renderTree (nodes s1 n) = None"
    and "element (nodes s1 n) = None" by (simp_all add: element_def)
  with d show ?thesis by simp
qed

text \<open>
  C10, as amended. \<open>destroy()\<close> (on a node it returns for) leaves the node's
  \<open>renderTree\<close> null. An assignment of a non-null element to the node then throws a
  TypeError and leaves every tree, so every index, as it was, and \<open>renderTree\<close>
  null; but the setter has written \<open>_element\<close> before it throws, so the node has the
  new element and counts as rendered, and a further \<open>destroy()\<close> throws as well.
  Whatever assignments follow, whether they throw or not, no index changes and
  \<open>renderTree\<close> stays null.
\<close>

theorem destroyed_never_registered:
  assumes "element (nodes s n) = None \<or> renderTree (nodes s n) \<noteq> None"
  shows "\<exists>s1. destroy n s = (Inr (), s1)
     \<and> renderTree (nodes s1 n) = None
     \<and> (\<forall>e. \<exists>s2. set_element n (Some e) s1 = (Inl TypeError, s2)
            \<and> trees s2 = trees s1
            \<and> renderTree (nodes s2 n) = None
            \<and> element (nodes s2 n) = Some e
            \<and> isRendered (nodes s2 n) = True
            \<and> fst (destroy n s2) = Inl TypeError)
     \<and> (\<forall>es. trees (assign_each n es s1) = trees s1
            \<and> renderTree (nodes (assign_each n es s1) n) = None)"
proof -
  from destroy_live_returns [OF assms] obtain s1 where
    1: "destroy n s = (Inr (), s1)" and 2: "renderTree (nodes s1 n) = None" by blast
  have 3: "\<exists>s2. set_element n (Some e) s1 = (Inl TypeError, s2)
            \<and> trees s2 = trees s1
            \<and> renderTree (nodes s2 n) = None
            \<and> element (nodes s2 n) = Some e
            \<and> isRendered (nodes s2 n) = True
            \<and> fst (destroy n s2) = Inl TypeError" for e
  proof -
    let ?s2 = "upd_node n (\<lambda>N. N\<lparr>priv_element := Some e\<rparr>) s1"
    have a: "set_element n (Some e) s1 = (Inl TypeError, ?s2)"
      by (rule set_element_dead [OF 2])
    have b: "trees ?s2 = trees s1" "renderTree (nodes ?s2 n) = None"
      "element (nodes ?s2 n) = Some e" "isRendered (nodes ?s2 n) = True"
      using 2 by (simp_all add: upd_node_def element_def isRendered_def)
    have "fst (destroy n ?s2) \<noteq> Inr ()"
      using b by (simp add: destroy_returns_iff)
    moreover have "fst (destroy n ?s2) = Inr () \<or> fst (destroy n ?s2) = Inl TypeError"
      by (simp add: destroy_def set_element_def Let_def split: option.splits)
    ultimately have "fst (destroy n ?s2) = Inl TypeError" by blast
    with a b show ?thesis by simp
  qed
  have 4: "\<forall>es. trees (assign_each n es s1) = trees s1
            \<and> renderTree (nodes (assign_each n es s1) n) = None"
    using assign_each_no_tree [OF 2] by blast
  from 1 2 3 4 show ?thesis by blast
qed

lemma parent_and_child_live:
  "element (nodes parent_and_child 0) = None \<or> renderTree (nodes parent_and_child 0) \<noteq> None"
  by (simp add: parent_and_child_def new_RenderNode_def)

theorem destroyed_never_registered_witness:
  "\<exists>s1. destroy 0 parent_and_child = (Inr (), s1)
     \<and> renderTree (nodes s1 0) = None
     \<and> (\<exists>s2. set_element 0 (Some 9) s1 = (Inl TypeError, s2)
            \<and> trees s2 = trees s1 \<and> element (nodes s2 0) = Some 9
            \<and> fst (destroy 0 s2) = Inl TypeError)
     \<and> trees (assign_each 0 [Some 9, None, Some 7] s1) = trees s1"
  using destroyed_never_registered [OF parent_and_child_live] by blast

text \<open>
  C10 as stated fails: the destroyed state does not stay as it is at the setter. On
  the destroyed node 0 the assignment of element 9 throws, and after it the node's
  element is 9, \<open>isRendered\<close> is true, and \<open>destroy()\<close> throws.
\<close>

theorem destroyed_state_changes_counterexample:
  "fst (destroy 0 parent_and_child) = Inr ()
   \<and> element (nodes (snd (destroy 0 parent_and_child)) 0) = None
   \<and> isRendered (nodes (snd (destroy 0 parent_and_child)) 0) = False
   \<and> fst (set_element 0 (Some 9) (snd (destroy 0 parent_and_child))) = Inl TypeError
   \<and> element (nodes (snd (set_element 0 (Some 9) (snd (destroy 0 parent_and_child)))) 0) = Some 9
   \<and> isRendered (nodes (snd (set_element 0 (Some 9) (snd (destroy 0 parent_and_child)))) 0) = True
   \<and> fst (destroy 0 (snd (set_element 0 (Some 9) (snd (destroy 0 parent_and_child)))))
       = Inl TypeError"
  by (simp add: destroy_def set_element_def Let_def upd_node_def upd_tree_def
        parent_and_child_def new_RenderNode_def element_def isRendered_def
        removeElementRenderNode_def)

section \<open>Attachment\<close>

text \<open>
  C7, as amended. \<open>isAttached()\<close> fails with the assertion error exactly when the
  node's element is null. When the element is not null and the node has its render
  tree, it returns what \<open>containsNode\<close> answers for the tree's root element and the
  node's element. When the element is not null and \<open>renderTree\<close> is null, it throws
  a TypeError.
\<close>

theorem isAttached_errors:
  "(isAttached containsNode s n = Inl AssertionError \<longleftrightarrow> element (nodes s n) = None)
   \<and> (\<forall>e t. element (nodes s n) = Some e \<and> renderTree (nodes s n) = Some t \<longrightarrow>
         isAttached containsNode s n = Inr (containsNode (rootElement (trees s t)) e))
   \<and> (\<forall>e. element (nodes s n) = Some e \<and> renderTree (nodes s n) = None \<longrightarrow>
         isAttached containsNode s n = Inl TypeError)"
  by (auto simp: isAttached_def split: option.splits)

lemma destroyed_then_assigned_node:
  "element (nodes destroyed_then_assigned 0) = Some 8"
  "renderTree (nodes destroyed_then_assigned 0) = None"
  by (simp_all add: destroyed_then_assigned_def destroy_def set_element_def Let_def upd_node_def
        fresh_heap_def new_RenderNode_def element_def)

theorem isAttached_errors_witness:
  "isAttached (\<le>) fresh_heap 0 = Inl AssertionError
   \<and> isAttached (\<le>) (snd (set_element 0 (Some 7) fresh_heap)) 0 = Inr True
   \<and> isAttached (\<le>) destroyed_then_assigned 0 = Inl TypeError"
proof -
  let ?s = "snd (set_element 0 (Some 7) fresh_heap)"
  have 1: "element (nodes fresh_heap 0) = None"
    by (simp add: fresh_heap_def new_RenderNode_def element_def)
  have 2: "element (nodes ?s 0) = Some 7 \<and> renderTree (nodes ?s 0) = Some 0
           \<and> rootElement (trees ?s 0) = 3"
    by (simp add: fresh_heap_assigned)
       (simp add: fresh_heap_def new_RenderNode_def element_def upd_node_def upd_tree_def
          setElementRenderNode_def)
  show ?thesis
    using isAttached_errors [of "(\<le>)" fresh_heap 0]
      isAttached_errors [of "(\<le>)" ?s 0]
      isAttached_errors [of "(\<le>)" destroyed_then_assigned 0]
      1 2 destroyed_then_assigned_node
    by simp
qed

text \<open>
  C7 as stated fails: \<open>destroy()\<close> on a fresh node returns, the assignment of element
  8 that follows throws after writing \<open>_element\<close>, and on the node so left, whose
  element is not null, \<open>isAttached()\<close> throws a TypeError instead of returning.
\<close>

theorem isAttached_no_tree_counterexample:
  "fst (destroy 0 fresh_heap) = Inr ()
   \<and> fst (set_element 0 (Some 8) (snd (destroy 0 fresh_heap))) = Inl TypeError
   \<and> element (nodes destroyed_then_assigned 0) = Some 8
   \<and> isAttached (\<le>) destroyed_then_assigned 0 = Inl TypeError"
  by (simp add: destroyed_then_assigned_def isAttached_def destroy_def set_element_def Let_def
        upd_node_def fresh_heap_def new_RenderNode_def element_def)

section \<open>Mutations inside a card\<close>

text \<open>
  C8, as amended. When the post node is not a card section the answer is true. When
  it is a card section and the node has a card node with an element, the answer is
  false exactly when that element contains the mutated node. When the post node is
  null, or it is a card section and the card node or its element is null, the call
  throws a TypeError.
\<close>

theorem reparsesMutationOfChildNode_card:
  "(\<forall>p. postNode N = Some p \<and> \<not> isCardSection p \<longrightarrow>
        reparsesMutationOfChildNode contains N d = Inr True)
   \<and> (\<forall>p c e. postNode N = Some p \<and> isCardSection p
          \<and> cardNode N = Some c \<and> card_element c = Some e \<longrightarrow>
        reparsesMutationOfChildNode contains N d = Inr (\<not> contains e d))
   \<and> (postNode N = None
       \<or> (\<exists>p. postNode N = Some p \<and> isCardSection p
            \<and> (cardNode N = None \<or> (\<exists>c. cardNode N = Some c \<and> card_element c = None))) \<longrightarrow>
        reparsesMutationOfChildNode contains N d = Inl TypeError)"
  by (auto simp: reparsesMutationOfChildNode_def split: option.splits)

theorem reparsesMutationOfChildNode_card_witness:
  "reparsesMutationOfChildNode (\<le>) card_node_7 9 = Inr False
   \<and> reparsesMutationOfChildNode (\<le>) card_node_7 2 = Inr True
   \<and> reparsesMutationOfChildNode (\<le>) (new_RenderNode (Some \<lparr>isCardSection = False\<rparr>) (Some 0)) 9
       = Inr True
   \<and> reparsesMutationOfChildNode (\<le>) (new_RenderNode None (Some 0)) 9 = Inl TypeError"
  using reparsesMutationOfChildNode_card [of card_node_7 "(\<le>)" 9]
    reparsesMutationOfChildNode_card [of card_node_7 "(\<le>)" 2]
    reparsesMutationOfChildNode_card
      [of "new_RenderNode (Some \<lparr>isCardSection = False\<rparr>) (Some 0)" "(\<le>)" 9]
    reparsesMutationOfChildNode_card [of "new_RenderNode None (Some 0)" "(\<le>)" 9]
  by (simp add: card_node_7_def new_RenderNode_def)

text \<open>
  C8 as stated fails on a node fresh from the constructor for a card section: its
  \<open>cardNode\<close> is null, and reading \<open>cardNode.element\<close> throws instead of answering true.
\<close>

theorem reparsesMutationOfChildNode_fresh_card_counterexample:
  "reparsesMutationOfChildNode (\<le>) (new_RenderNode (Some \<lparr>isCardSection = True\<rparr>) (Some 0)) 9
     = Inl TypeError
   \<and> reparsesMutationOfChildNode (\<le>) (new_RenderNode (Some \<lparr>isCardSection = True\<rparr>) (Some 0)) 9
     \<noteq> Inr True"
  by (simp add: reparsesMutationOfChildNode_def new_RenderNode_def)

end
